theory Spec2Isabelle
  imports Main
begin

section \<open>Python values, exceptions and the remote service\<close>

text \<open>
  The exceptions the page loop of \<open>cli\<close> can see. Every constructor stands for a subclass of
  Python's \<open>Exception\<close>, which is what the loop's \<open>except Exception\<close> catches.
  \<open>KeyError\<close> carries the missing key. \<open>LibraryError\<close> stands for whatever a library
  outside this repository raises (requests on a transport failure, the XML parser on a
  malformed body, the file system on a failed write); its text is the message.
\<close>

datatype exn =
    KeyError string
  | IndexError
  | ValueError
  | TypeError
  | LibraryError string

text \<open>Sequencing of computations that may raise: the first exception wins.\<close>

definition and_then :: "exn + 'a \<Rightarrow> ('a \<Rightarrow> exn + 'b) \<Rightarrow> exn + 'b" where
  "and_then m f = (case m of Inl e \<Rightarrow> Inl e | Inr v \<Rightarrow> f v)"

text \<open>
  What \<open>xmltodict.parse\<close> produces: \<open>None\<close> for an empty element, a string for an element
  that holds text only, a dict for an element with children, and a list where an element
  is repeated under one parent.
\<close>

datatype xval =
    XNone
  | XStr string
  | XDict "(string \<times> xval) list"
  | XList "xval list"

text \<open>\<open>v[key]\<close> with a string key: only a dict can be subscripted this way.\<close>

definition getitem :: "xval \<Rightarrow> string \<Rightarrow> exn + xval" where
  "getitem v key =
     (case v of
        XDict kvs \<Rightarrow> (case map_of kvs key of None \<Rightarrow> Inl (KeyError key) | Some x \<Rightarrow> Inr x)
      | _ \<Rightarrow> Inl TypeError)"

fun startswith :: "string \<Rightarrow> string \<Rightarrow> bool" where
  "startswith [] s = True"
| "startswith (a # k) [] = False"
| "startswith (a # k) (c # s) = (a = c \<and> startswith k s)"

fun substring :: "string \<Rightarrow> string \<Rightarrow> bool" where
  "substring k [] = (k = [])"
| "substring k (c # s) = (startswith k (c # s) \<or> substring k s)"

text \<open>
  \<open>key in v\<close>: key membership for a dict, substring test for a string, element equality
  for a list, and a \<open>TypeError\<close> for \<open>None\<close>.
\<close>

definition py_in :: "string \<Rightarrow> xval \<Rightarrow> exn + bool" where
  "py_in key v =
     (case v of
        XDict kvs \<Rightarrow> Inr (map_of kvs key \<noteq> None)
      | XStr s \<Rightarrow> Inr (substring key s)
      | XList vs \<Rightarrow> Inr (XStr key \<in> set vs)
      | XNone \<Rightarrow> Inl TypeError)"

definition py_len :: "xval \<Rightarrow> exn + nat" where
  "py_len v =
     (case v of
        XStr s \<Rightarrow> Inr (length s)
      | XDict kvs \<Rightarrow> Inr (length kvs)
      | XList vs \<Rightarrow> Inr (length vs)
      | XNone \<Rightarrow> Inl TypeError)"

text \<open>\<open>xs[0]\<close> raises \<open>IndexError\<close> on the empty list.\<close>

definition first :: "'a list \<Rightarrow> exn + 'a" where
  "first xs = (case xs of [] \<Rightarrow> Inl IndexError | x # _ \<Rightarrow> Inr x)"

text \<open>\<open>max\<close> of a list of integers raises \<open>ValueError\<close> on the empty list.\<close>

definition py_max :: "int list \<Rightarrow> exn + int" where
  "py_max xs = (case xs of [] \<Rightarrow> Inl ValueError | x # r \<Rightarrow> Inr (foldl max x r))"

text \<open>\<open>str\<close> of an integer: decimal digits, with a minus sign when negative.\<close>

function str_nat :: "nat \<Rightarrow> string" where
  "str_nat n =
     (if n < 10 then [''0123456789'' ! n]
      else str_nat (n div 10) @ [''0123456789'' ! (n mod 10)])"
  by pat_completeness auto
termination
  by (relation "measure id") auto

definition str_int :: "int \<Rightarrow> string" where
  "str_int i = (if i < 0 then CHR ''-'' # str_nat (nat (- i)) else str_nat (nat i))"

text \<open>\<open>sep.join(xs)\<close>.\<close>

fun join :: "string \<Rightarrow> string list \<Rightarrow> string" where
  "join sep [] = []"
| "join sep [x] = x"
| "join sep (x # y # ys) = x @ sep @ join sep (y # ys)"

section \<open>The data of a run\<close>

text \<open>
  A transcript version and a page are JSON objects of the service. A field is \<open>None\<close>
  when the object lacks the key: \<open>t['timestamp']\<close> then raises \<open>KeyError\<close>, while
  \<open>t.get('status', 'N/A')\<close> takes the default.
\<close>

record transcript =
  timestamp :: "int option"
  url :: "string option"
  status :: "string option"
  userName :: "string option"
  nrOfLines :: "int option"

record ts_list =
  transcripts :: "transcript list option"

record page =
  tsList :: "ts_list option"
  imgFileName :: "string option"

text \<open>
  The response of \<open>requests.get\<close>: its status code, and what
  \<open>xmltodict.parse(rv.content.decode())\<close> makes of its body (\<open>Inl\<close> when decoding or
  parsing raises).
\<close>

record response =
  status_code :: nat
  parsed :: "exn + xval"

text \<open>
  What the run prints for a page: \<open>Writing <path> with <n> characters.\<close> (line 262) and
  \<open>Error Processing <page>: <exception>\<close> (line 275).
\<close>

datatype message =
    Writing string nat
  | ErrorProcessing page exn

text \<open>
  What writing a file does: it succeeds, it fails before the file is touched (the file
  cannot be opened), or it fails after the file was opened for writing, which leaves
  some partial content behind.
\<close>

datatype write_result =
    WriteOk
  | OpenFails exn
  | WriteFails exn string

text \<open>
  The world outside \<open>cli\<close>, fixed for a run: the service (\<open>requests.get\<close> with the
  session headers; \<open>Inl\<close> is a transport failure), \<open>datetime.fromtimestamp\<close> (which
  raises on a timestamp out of its range), \<open>Path(name).stem\<close>,
  \<open>base_path.joinpath(name)\<close>, the file system's answer to a write, and what printing
  a message does. Both \<open>progress.console.print\<close> and \<open>cprint\<close> are \<open>rich\<close> printing, which
  reads console markup in the text it is given and raises \<open>MarkupError\<close> on a closing tag
  that closes nothing; \<open>print_fails\<close> is \<open>None\<close> when the message prints.
\<close>

record env =
  http_get :: "string \<Rightarrow> exn + response"
  fromtimestamp :: "int \<Rightarrow> exn + unit"
  stem :: "string \<Rightarrow> string"
  joinpath :: "string \<Rightarrow> string"
  fs_write :: "string \<Rightarrow> string \<Rightarrow> write_result"
  print_fails :: "message \<Rightarrow> exn option"

text \<open>
  The state the page loop changes: the files under the target directory (path to
  content), the console, and the number of pages the progress bar has advanced over.
\<close>

record run_state =
  files :: "string \<rightharpoonup> string"
  console :: "message list"
  completed :: nat

section \<open>Fetching the text of a transcript\<close>

definition get_text_from_transcript :: "env \<Rightarrow> string \<Rightarrow> exn + xval" where
  "get_text_from_transcript env u =
     and_then (http_get env u) (\<lambda>rv.
     and_then (parsed rv) (\<lambda>tmp.
     and_then (getitem tmp ''PcGts'') (\<lambda>root.
     and_then (getitem root ''Page'') (\<lambda>pg.
     and_then (py_in ''TextRegion'' pg) (\<lambda>has_region.
       if has_region then
         and_then (getitem pg ''TextRegion'') (\<lambda>tr.
         and_then (py_in ''TextEquiv'' tr) (\<lambda>has_equiv.
           if has_equiv then
             and_then (getitem tr ''TextEquiv'') (\<lambda>te.
             and_then (getitem te ''Unicode'') (\<lambda>uni.
               if uni \<noteq> XNone then Inr uni else Inr XNone))
           else Inr XNone))
       else Inr XNone)))))"

section \<open>Selecting the latest transcript of a page\<close>

definition get_timestamp :: "transcript \<Rightarrow> exn + int" where
  "get_timestamp t =
     (case timestamp t of None \<Rightarrow> Inl (KeyError ''timestamp'') | Some v \<Rightarrow> Inr v)"

definition get_url :: "transcript \<Rightarrow> exn + string" where
  "get_url t = (case url t of None \<Rightarrow> Inl (KeyError ''url'') | Some v \<Rightarrow> Inr v)"

text \<open>\<open>[t['timestamp'] for t in transcripts]\<close>\<close>

fun timestamps :: "transcript list \<Rightarrow> exn + int list" where
  "timestamps [] = Inr []"
| "timestamps (t # ts) =
     and_then (get_timestamp t) (\<lambda>v.
     and_then (timestamps ts) (\<lambda>vs. Inr (v # vs)))"

definition max_timestamp :: "transcript list \<Rightarrow> exn + int" where
  "max_timestamp ts = and_then (timestamps ts) py_max"

text \<open>
  \<open>list(filter(lambda x: max_ts == x['timestamp'], transcripts))\<close>; every transcript has
  its timestamp here, since \<open>max_timestamp\<close> did not raise.
\<close>

definition latest_of :: "int \<Rightarrow> transcript list \<Rightarrow> transcript list" where
  "latest_of max_ts ts = filter (\<lambda>x. Some max_ts = timestamp x) ts"

definition other_than :: "transcript \<Rightarrow> transcript list \<Rightarrow> transcript list" where
  "other_than l0 ts = filter (\<lambda>x. timestamp l0 \<noteq> timestamp x) ts"

section \<open>Processing a page\<close>

definition lookup_transcripts :: "page \<Rightarrow> exn + transcript list" where
  "lookup_transcripts p =
     (case tsList p of
        None \<Rightarrow> Inl (KeyError ''tsList'')
      | Some l \<Rightarrow>
          (case transcripts l of None \<Rightarrow> Inl (KeyError ''transcripts'') | Some ts \<Rightarrow> Inr ts))"

definition lookup_imgFileName :: "page \<Rightarrow> exn + string" where
  "lookup_imgFileName p =
     (case imgFileName p of None \<Rightarrow> Inl (KeyError ''imgFileName'') | Some n \<Rightarrow> Inr n)"

definition text_file_path :: "env \<Rightarrow> string \<Rightarrow> string" where
  "text_file_path env image_file_name = joinpath env (stem env image_file_name @ ''.txt'')"

definition meta_file_path :: "env \<Rightarrow> string \<Rightarrow> string" where
  "meta_file_path env image_file_name =
     joinpath env (stem env image_file_name @ ''-meta.txt'')"

text \<open>
  Lines 242 to 261 of the source: the latest transcripts, the text of the first of them,
  the text of the first transcript with another timestamp when that text is \<open>None\<close>, and
  the empty string when the text is still \<open>None\<close>. The result is the text and \<open>latest\<close>.
\<close>

definition fetch_latest :: "env \<Rightarrow> transcript list \<Rightarrow> exn + (xval \<times> transcript list)" where
  "fetch_latest env ts =
     and_then (max_timestamp ts) (\<lambda>max_ts.
     and_then (fromtimestamp env max_ts) (\<lambda>_.
     let latest = latest_of max_ts ts in
     and_then (first latest) (\<lambda>l0.
     and_then (get_url l0) (\<lambda>u.
     and_then (get_text_from_transcript env u) (\<lambda>text.
     and_then
       (if text = XNone then
          (let o_latest = other_than l0 ts in
           and_then (first o_latest) (\<lambda>o0.
           and_then (get_url o0) (\<lambda>ou.
           get_text_from_transcript env ou)))
        else Inr text) (\<lambda>text.
     Inr (if text = XNone then XStr [] else text, latest)))))))"

text \<open>
  \<open>path.write_text(data)\<close>: a \<open>TypeError\<close> before the file is opened when the data is not
  a string; otherwise what the file system answers.
\<close>

definition write_text :: "env \<Rightarrow> string \<Rightarrow> xval \<Rightarrow> run_state \<Rightarrow> exn option \<times> run_state" where
  "write_text env path data w =
     (case data of
        XStr s \<Rightarrow>
          (case fs_write env path s of
             WriteOk \<Rightarrow> (None, w\<lparr>files := (files w)(path \<mapsto> s)\<rparr>)
           | OpenFails e \<Rightarrow> (Some e, w)
           | WriteFails e partial \<Rightarrow> (Some e, w\<lparr>files := (files w)(path \<mapsto> partial)\<rparr>))
      | _ \<Rightarrow> (Some TypeError, w))"

definition or_default :: "string option \<Rightarrow> string \<Rightarrow> string" where
  "or_default v d = (case v of None \<Rightarrow> d | Some s \<Rightarrow> s)"

text \<open>The three lines of the metadata file, joined by newlines (lines 268 to 273).\<close>

definition meta_text :: "transcript \<Rightarrow> string" where
  "meta_text l0 =
     join [CHR 0x0A]
       [''status:'' @ [CHR 0x09] @ or_default (status l0) ''N/A'',
        ''userName:'' @ [CHR 0x09] @ or_default (userName l0) ''N/A'',
        ''nrOfLines:'' @ [CHR 0x09] @
          str_int (case nrOfLines l0 of None \<Rightarrow> 0 | Some n \<Rightarrow> n)]"

text \<open>
  The body of the \<open>try\<close> (lines 235 to 273). It returns the exception it raises, if any,
  and the state it leaves: a file written before the exception stays written. Logging is
  taken to succeed.
\<close>

definition page_body :: "env \<Rightarrow> page \<Rightarrow> run_state \<Rightarrow> exn option \<times> run_state" where
  "page_body env p w =
     (case lookup_transcripts p of
        Inl e \<Rightarrow> (Some e, w)
      | Inr ts \<Rightarrow>
     (case lookup_imgFileName p of
        Inl e \<Rightarrow> (Some e, w)
      | Inr image_file_name \<Rightarrow>
     (case fetch_latest env ts of
        Inl e \<Rightarrow> (Some e, w)
      | Inr (text, latest) \<Rightarrow>
     (case py_len text of
        Inl e \<Rightarrow> (Some e, w)
      | Inr n \<Rightarrow>
     (case print_fails env (Writing (text_file_path env image_file_name) n) of
        Some e \<Rightarrow> (Some e, w)
      | None \<Rightarrow>
     (let w1 = w\<lparr>console := console w @ [Writing (text_file_path env image_file_name) n]\<rparr>
      in case write_text env (text_file_path env image_file_name) text w1 of
        (Some e, w2) \<Rightarrow> (Some e, w2)
      | (None, w2) \<Rightarrow>
          (case latest of
             [] \<Rightarrow> (None, w2)
           | l0 # _ \<Rightarrow>
               write_text env (meta_file_path env image_file_name)
                 (XStr (meta_text l0)) w2)))))))"

text \<open>
  One turn of the loop over the pages (lines 234 to 279): the \<open>try\<close>, its
  \<open>except Exception\<close>, which prints the page and the exception, and then
  \<open>progress.advance\<close>. An exception of the body is caught. An exception that the printing
  in the \<open>except\<close> branch raises is not: it leaves the loop before the progress bar
  advances. The result is the exception that leaves the loop, if any, and the state.
\<close>

definition process_page :: "env \<Rightarrow> run_state \<Rightarrow> page \<Rightarrow> exn option \<times> run_state" where
  "process_page env w p =
     (case page_body env p w of
        (None, w') \<Rightarrow> (None, w'\<lparr>completed := completed w' + 1\<rparr>)
      | (Some e, w') \<Rightarrow>
          (case print_fails env (ErrorProcessing p e) of
             Some e' \<Rightarrow> (Some e', w')
           | None \<Rightarrow>
               (None,
                w'\<lparr>console := console w' @ [ErrorProcessing p e],
                    completed := completed w' + 1\<rparr>)))"

text \<open>
  \<open>for page in pages\<close>: an exception that leaves a turn of the loop ends the loop, and the
  pages after it are not processed.
\<close>

fun process_pages :: "env \<Rightarrow> run_state \<Rightarrow> page list \<Rightarrow> exn option \<times> run_state" where
  "process_pages env w [] = (None, w)"
| "process_pages env w (p # ps) =
     (case process_page env w p of
        (Some e, w') \<Rightarrow> (Some e, w')
      | (None, w') \<Rightarrow> process_pages env w' ps)"

section \<open>Example data\<close>

text \<open>The two versions of page \<open>img001.jpg\<close> in the scenario of the specification.\<close>

definition version_A :: transcript where
  "version_A =
     \<lparr>timestamp = Some 100, url = Some ''A'', status = Some ''DONE'',
      userName = Some ''alice'', nrOfLines = Some 5\<rparr>"

definition version_B :: transcript where
  "version_B =
     \<lparr>timestamp = Some 200, url = Some ''B'', status = Some ''IN_PROGRESS'',
      userName = Some ''bob'', nrOfLines = Some 0\<rparr>"

text \<open>A third version, as late as \<open>version_B\<close>.\<close>

definition version_C :: transcript where
  "version_C =
     \<lparr>timestamp = Some 200, url = Some ''C'', status = None,
      userName = None, nrOfLines = None\<rparr>"

text \<open>Documents of the service, as \<open>xmltodict.parse\<close> returns them.\<close>

definition region :: "string \<Rightarrow> xval" where
  "region s = XDict [(''TextEquiv'', XDict [(''Unicode'', XStr s)])]"

definition document :: "(string \<times> xval) list \<Rightarrow> xval" where
  "document kvs = XDict [(''PcGts'', XDict [(''Page'', XDict kvs)])]"

definition answer :: "nat \<Rightarrow> xval \<Rightarrow> exn + response" where
  "answer code d = Inr \<lparr>status_code = code, parsed = Inr d\<rparr>"

text \<open>No transcript has any text.\<close>

definition service_no_text :: "string \<Rightarrow> exn + response" where
  "service_no_text u = answer 200 (document [(''@imageFilename'', XStr ''img001.jpg'')])"

text \<open>Only the transcript at \<open>A\<close> has text.\<close>

definition service_fallback :: "string \<Rightarrow> exn + response" where
  "service_fallback u =
     (if u = ''A'' then answer 200 (document [(''TextRegion'', region ''fallback text'')])
      else answer 200 (document [(''@imageFilename'', XStr ''img001.jpg'')]))"

text \<open>A transcript with two text regions, both with text.\<close>

definition service_two_regions :: "string \<Rightarrow> exn + response" where
  "service_two_regions u =
     answer 200 (document [(''TextRegion'', XList [region ''one'', region ''two''])])"

text \<open>A server error whose body is a page document.\<close>

definition service_500 :: "string \<Rightarrow> exn + response" where
  "service_500 u = answer 500 (document [(''TextRegion'', region ''line one'')])"

text \<open>
  \<open>Path(name).stem\<close>: the last component of the path, without its last suffix.
\<close>

definition path_stem :: "string \<Rightarrow> string" where
  "path_stem s =
     (let name = rev (takeWhile (\<lambda>c. c \<noteq> CHR ''/'') (rev s));
          ext = takeWhile (\<lambda>c. c \<noteq> CHR ''.'') (rev name)
      in if CHR ''.'' \<in> set name \<and> ext \<noteq> [] \<and> length ext + 1 < length name
         then take (length name - length ext - 1) name
         else name)"

text \<open>
  Printing in the examples. The closing tag \<open>[/b]\<close> in a file name closes nothing, in the
  path of the \<open>Writing\<close> message as in the page of the error message, and \<open>rich\<close> raises
  \<open>MarkupError\<close> on it. The other texts of the examples hold no tag.
\<close>

definition markup_error :: "string \<Rightarrow> exn option" where
  "markup_error s = (if substring ''[/b]'' s then Some (LibraryError ''MarkupError'') else None)"

definition example_print :: "message \<Rightarrow> exn option" where
  "example_print m =
     (case m of
        Writing path n \<Rightarrow> markup_error path
      | ErrorProcessing p e \<Rightarrow>
          markup_error (case imgFileName p of None \<Rightarrow> [] | Some name \<Rightarrow> name))"

text \<open>
  An environment in which every write succeeds, and one in which the metadata file of
  \<open>img001.jpg\<close> cannot be opened.
\<close>

definition example_env :: "(string \<Rightarrow> exn + response) \<Rightarrow> env" where
  "example_env service =
     \<lparr>http_get = service,
      fromtimestamp = (\<lambda>_. Inr ()),
      stem = path_stem,
      joinpath = (\<lambda>name. ''out/'' @ name),
      fs_write = (\<lambda>_ _. WriteOk),
      print_fails = example_print\<rparr>"

definition readonly_meta_env :: "(string \<Rightarrow> exn + response) \<Rightarrow> env" where
  "readonly_meta_env service =
     \<lparr>http_get = service,
      fromtimestamp = (\<lambda>_. Inr ()),
      stem = path_stem,
      joinpath = (\<lambda>name. ''out/'' @ name),
      fs_write = (\<lambda>path _.
        if path = ''out/img001-meta.txt'' then OpenFails (LibraryError ''PermissionError'')
        else WriteOk),
      print_fails = example_print\<rparr>"

definition page_of :: "string \<Rightarrow> transcript list \<Rightarrow> page" where
  "page_of name ts = \<lparr>tsList = Some \<lparr>transcripts = Some ts\<rparr>, imgFileName = Some name\<rparr>"

definition start :: run_state where
  "start = \<lparr>files = Map.empty, console = [], completed = 0\<rparr>"

section \<open>Unfolding the model on concrete data\<close>

lemmas model_defs = page_body_def process_page_def fetch_latest_def get_text_from_transcript_def
  lookup_transcripts_def lookup_imgFileName_def max_timestamp_def and_then_def get_timestamp_def
  get_url_def py_max_def latest_of_def other_than_def first_def getitem_def py_in_def py_len_def
  write_text_def text_file_path_def meta_file_path_def meta_text_def or_default_def str_int_def

lemmas example_defs = version_A_def version_B_def version_C_def region_def document_def answer_def
  service_no_text_def service_fallback_def service_two_regions_def service_500_def
  example_env_def readonly_meta_env_def page_of_def start_def path_stem_def markup_error_def
  example_print_def

section \<open>The selection\<close>

lemma timestamps_all:
  "list_all (\<lambda>t. timestamp t \<noteq> None) ts \<Longrightarrow>
   timestamps ts = Inr (map (\<lambda>t. the (timestamp t)) ts)"
  by (induction ts) (auto simp: and_then_def get_timestamp_def)

lemma timestamps_Inr:
  "timestamps ts = Inr vs \<Longrightarrow> map timestamp ts = map Some vs"
  by (induction ts arbitrary: vs)
     (auto simp: and_then_def get_timestamp_def split: option.splits sum.splits)

lemma py_max_Max:
  assumes "xs \<noteq> []"
  shows "py_max xs = Inr (Max (set xs))"
proof (cases xs)
  case Nil
  with assms show ?thesis by simp
next
  case (Cons x r)
  have "foldl max x r = fold max r x"
    by (simp add: foldl_conv_fold max.commute)
  also have "\<dots> = Max (set (x # r))"
    by (rule Max.set_eq_fold [symmetric])
  finally show ?thesis using Cons by (simp add: py_max_def)
qed

lemma max_timestamp_Inr:
  assumes "max_timestamp ts = Inr m"
  shows "ts \<noteq> [] \<and> (\<exists>p \<in> set ts. timestamp p = Some m) \<and>
         (\<forall>t \<in> set ts. \<exists>v. timestamp t = Some v \<and> v \<le> m)"
proof -
  from assms obtain vs where vs: "timestamps ts = Inr vs" and pm: "py_max vs = Inr m"
    by (auto simp: max_timestamp_def and_then_def split: sum.splits)
  from pm have ne: "vs \<noteq> []" by (auto simp: py_max_def)
  with pm have m: "m = Max (set vs)" by (simp add: py_max_Max)
  from vs have mp: "map timestamp ts = map Some vs" by (rule timestamps_Inr)
  then have len: "length ts = length vs" by (metis length_map)
  with ne have "ts \<noteq> []" by auto
  moreover have "m \<in> set vs" using m ne by (metis List.finite_set Max_in set_empty)
  then have "Some m \<in> set (map timestamp ts)" using mp by simp
  then have "\<exists>p \<in> set ts. timestamp p = Some m" by auto
  moreover have "\<forall>t \<in> set ts. \<exists>v. timestamp t = Some v \<and> v \<le> m"
  proof
    fix t assume "t \<in> set ts"
    then have "timestamp t \<in> set (map Some vs)" using mp by (metis image_eqI set_map)
    then obtain v where "v \<in> set vs" "timestamp t = Some v" by auto
    then show "\<exists>v. timestamp t = Some v \<and> v \<le> m" using m by auto
  qed
  ultimately show ?thesis by blast
qed

lemma max_timestamp_total:
  "ts \<noteq> [] \<Longrightarrow> list_all (\<lambda>t. timestamp t \<noteq> None) ts \<Longrightarrow> \<exists>m. max_timestamp ts = Inr m"
  by (simp add: max_timestamp_def and_then_def timestamps_all py_max_Max)

text \<open>
  Claim C1. For a non-empty list of versions that all carry a timestamp, the maximum is
  found, the version the export takes (\<open>latest[0]\<close>) has that timestamp, no version of the
  list has a greater one, and no version before it in the list has the same one.
\<close>

theorem primary_is_latest_and_first:
  assumes "ts \<noteq> []" and "list_all (\<lambda>t. timestamp t \<noteq> None) ts"
  shows "\<exists>m p pre post.
           max_timestamp ts = Inr m \<and>
           first (latest_of m ts) = Inr p \<and>
           timestamp p = Some m \<and>
           (\<forall>t \<in> set ts. \<exists>v. timestamp t = Some v \<and> v \<le> m) \<and>
           ts = pre @ p # post \<and>
           (\<forall>t \<in> set pre. timestamp t \<noteq> Some m)"
proof -
  from assms obtain m where m: "max_timestamp ts = Inr m"
    using max_timestamp_total by blast
  from max_timestamp_Inr [OF m]
  have ex: "\<exists>p \<in> set ts. timestamp p = Some m"
    and le: "\<forall>t \<in> set ts. \<exists>v. timestamp t = Some v \<and> v \<le> m" by blast+
  from ex have "latest_of m ts \<noteq> []"
    by (force simp: latest_of_def filter_empty_conv)
  then obtain p rest where pr: "latest_of m ts = p # rest"
    by (cases "latest_of m ts") auto
  then obtain pre post where "ts = pre @ p # post" "\<forall>u \<in> set pre. Some m \<noteq> timestamp u"
    "Some m = timestamp p"
    unfolding latest_of_def filter_eq_Cons_iff by blast
  with m le pr show ?thesis
    by (intro exI [of _ m] exI [of _ p] exI [of _ pre] exI [of _ post])
       (auto simp: first_def)
qed

theorem primary_is_latest_and_first_witness:
  "[version_A, version_B, version_C] \<noteq> [] \<and>
   list_all (\<lambda>t. timestamp t \<noteq> None) [version_A, version_B, version_C] \<and>
   max_timestamp [version_A, version_B, version_C] = Inr 200 \<and>
   first (latest_of 200 [version_A, version_B, version_C]) = Inr version_B \<and>
   (\<exists>m p pre post.
      max_timestamp [version_A, version_B, version_C] = Inr m \<and>
      first (latest_of m [version_A, version_B, version_C]) = Inr p \<and>
      timestamp p = Some m \<and>
      (\<forall>t \<in> set [version_A, version_B, version_C]. \<exists>v. timestamp t = Some v \<and> v \<le> m) \<and>
      [version_A, version_B, version_C] = pre @ p # post \<and>
      (\<forall>t \<in> set pre. timestamp t \<noteq> Some m))"
proof -
  have h1: "[version_A, version_B, version_C] \<noteq> []" by simp
  have h2: "list_all (\<lambda>t. timestamp t \<noteq> None) [version_A, version_B, version_C]"
    by (simp add: version_A_def version_B_def version_C_def)
  have e1: "max_timestamp [version_A, version_B, version_C] = Inr 200"
    by (simp add: max_timestamp_def and_then_def get_timestamp_def py_max_def
        version_A_def version_B_def version_C_def)
  have e2: "first (latest_of 200 [version_A, version_B, version_C]) = Inr version_B"
    by (simp add: latest_of_def first_def version_A_def version_B_def version_C_def)
  from primary_is_latest_and_first [OF h1 h2] h1 h2 e1 e2 show ?thesis by blast
qed

section \<open>The page body\<close>

lemma fetch_latest_Inr:
  assumes "fetch_latest env ts = Inr (text, latest)"
  shows "\<exists>m l0 rest. max_timestamp ts = Inr m \<and> latest = latest_of m ts \<and>
           latest = l0 # rest \<and> text \<noteq> XNone"
  using assms
  by (auto simp: fetch_latest_def and_then_def first_def Let_def
      split: sum.splits list.splits if_splits)

lemma write_text_None:
  assumes "write_text env path data w = (None, w')"
  shows "\<exists>s. data = XStr s \<and> fs_write env path s = WriteOk \<and>
             w' = w\<lparr>files := (files w)(path \<mapsto> s)\<rparr>"
  using assms
  by (auto simp: write_text_def split: xval.splits write_result.splits)

lemma page_body_None:
  assumes "page_body env p w = (None, w')"
  shows "\<exists>ts img s latest l0 rest.
           lookup_transcripts p = Inr ts \<and> lookup_imgFileName p = Inr img \<and>
           fetch_latest env ts = Inr (XStr s, latest) \<and> latest = l0 # rest \<and>
           w' = w\<lparr>console := console w @ [Writing (text_file_path env img) (length s)],
                  files := (files w)(text_file_path env img \<mapsto> s,
                                     meta_file_path env img \<mapsto> meta_text l0)\<rparr>"
proof -
  from assms obtain ts where ts: "lookup_transcripts p = Inr ts"
    by (cases "lookup_transcripts p") (auto simp: page_body_def)
  from assms ts obtain img where img: "lookup_imgFileName p = Inr img"
    by (cases "lookup_imgFileName p") (auto simp: page_body_def)
  from assms ts img obtain body latest where fl: "fetch_latest env ts = Inr (body, latest)"
    by (cases "fetch_latest env ts") (auto simp: page_body_def)
  from fetch_latest_Inr [OF fl] obtain l0 rest where lat: "latest = l0 # rest" by blast
  from assms ts img fl obtain n where n: "py_len body = Inr n"
    by (cases "py_len body") (auto simp: page_body_def)
  let ?w1 = "w\<lparr>console := console w @ [Writing (text_file_path env img) n]\<rparr>"
  from assms ts img fl n have pr: "print_fails env (Writing (text_file_path env img) n) = None"
    by (cases "print_fails env (Writing (text_file_path env img) n)") (auto simp: page_body_def)
  from assms ts img fl n lat pr obtain w2 where
    w2: "write_text env (text_file_path env img) body ?w1 = (None, w2)" and
    w': "write_text env (meta_file_path env img) (XStr (meta_text l0)) w2 = (None, w')"
    by (auto simp: page_body_def Let_def split: prod.splits option.splits)
  from write_text_None [OF w2] obtain s where s: "body = XStr s"
    and w2eq: "w2 = ?w1\<lparr>files := (files ?w1)(text_file_path env img \<mapsto> s)\<rparr>" by blast
  from write_text_None [OF w'] have
    w'eq: "w' = w2\<lparr>files := (files w2)(meta_file_path env img \<mapsto> meta_text l0)\<rparr>" by blast
  from n s have "n = length s" by (simp add: py_len_def)
  with ts img fl lat s w2eq w'eq show ?thesis by simp
qed

lemma meta_text_lines:
  "meta_text l0 =
     ''status:'' @ [CHR 0x09] @ or_default (status l0) ''N/A'' @ [CHR 0x0A] @
     ''userName:'' @ [CHR 0x09] @ or_default (userName l0) ''N/A'' @ [CHR 0x0A] @
     ''nrOfLines:'' @ [CHR 0x09] @ str_int (case nrOfLines l0 of None \<Rightarrow> 0 | Some n \<Rightarrow> n)"
  by (simp add: meta_text_def)

text \<open>
  Claim C4. When the body of the \<open>try\<close> ends without an exception, the metadata file
  holds three lines, \<open>status\<close>, \<open>userName\<close> and \<open>nrOfLines\<close>, each a key, a tab and a
  value, joined by newlines. The values are those of the first version with the greatest
  timestamp, with \<open>N/A\<close> and \<open>0\<close> where it lacks the key, whichever version the text came
  from.
\<close>

theorem metadata_is_taken_from_primary:
  assumes "page_body env p w = (None, w')"
  shows "\<exists>ts img m l0.
           lookup_transcripts p = Inr ts \<and> lookup_imgFileName p = Inr img \<and>
           max_timestamp ts = Inr m \<and> first (latest_of m ts) = Inr l0 \<and>
           timestamp l0 = Some m \<and>
           (\<forall>t \<in> set ts. \<exists>v. timestamp t = Some v \<and> v \<le> m) \<and>
           files w' (meta_file_path env img) =
             Some (''status:'' @ [CHR 0x09] @ or_default (status l0) ''N/A'' @ [CHR 0x0A] @
                   ''userName:'' @ [CHR 0x09] @ or_default (userName l0) ''N/A'' @ [CHR 0x0A] @
                   ''nrOfLines:'' @ [CHR 0x09] @
                   str_int (case nrOfLines l0 of None \<Rightarrow> 0 | Some n \<Rightarrow> n))"
proof -
  from page_body_None [OF assms] obtain ts img s latest l0 rest where
    ts: "lookup_transcripts p = Inr ts" and img: "lookup_imgFileName p = Inr img" and
    fl: "fetch_latest env ts = Inr (XStr s, latest)" and lat: "latest = l0 # rest" and
    w': "w' = w\<lparr>console := console w @ [Writing (text_file_path env img) (length s)],
                  files := (files w)(text_file_path env img \<mapsto> s,
                                     meta_file_path env img \<mapsto> meta_text l0)\<rparr>"
    by blast
  from fetch_latest_Inr [OF fl] lat obtain m where
    m: "max_timestamp ts = Inr m" and l: "latest_of m ts = l0 # rest" by auto
  from l have fst: "first (latest_of m ts) = Inr l0" by (simp add: first_def)
  have "l0 \<in> set (latest_of m ts)" using l by simp
  then have tl: "timestamp l0 = Some m" by (simp add: latest_of_def)
  from max_timestamp_Inr [OF m]
  have le: "\<forall>t \<in> set ts. \<exists>v. timestamp t = Some v \<and> v \<le> m" by blast
  from w' have "files w' (meta_file_path env img) = Some (meta_text l0)" by simp
  with ts img m fst tl le show ?thesis unfolding meta_text_lines by blast
qed

theorem metadata_is_taken_from_primary_witness:
  "page_body (example_env service_fallback) (page_of ''img001.jpg'' [version_A, version_B]) start =
     (None,
      snd (page_body (example_env service_fallback)
             (page_of ''img001.jpg'' [version_A, version_B]) start)) \<and>
   files (snd (page_body (example_env service_fallback)
             (page_of ''img001.jpg'' [version_A, version_B]) start)) ''out/img001.txt'' =
     Some ''fallback text'' \<and>
   files (snd (page_body (example_env service_fallback)
             (page_of ''img001.jpg'' [version_A, version_B]) start)) ''out/img001-meta.txt'' =
     Some (''status:'' @ [CHR 0x09] @ ''IN_PROGRESS'' @ [CHR 0x0A] @
           ''userName:'' @ [CHR 0x09] @ ''bob'' @ [CHR 0x0A] @
           ''nrOfLines:'' @ [CHR 0x09] @ ''0'') \<and>
   (\<exists>ts img m l0.
      lookup_transcripts (page_of ''img001.jpg'' [version_A, version_B]) = Inr ts \<and>
      lookup_imgFileName (page_of ''img001.jpg'' [version_A, version_B]) = Inr img \<and>
      max_timestamp ts = Inr m \<and> first (latest_of m ts) = Inr l0 \<and>
      timestamp l0 = Some m \<and>
      (\<forall>t \<in> set ts. \<exists>v. timestamp t = Some v \<and> v \<le> m) \<and>
      files (snd (page_body (example_env service_fallback)
             (page_of ''img001.jpg'' [version_A, version_B]) start))
        (meta_file_path (example_env service_fallback) img) =
        Some (''status:'' @ [CHR 0x09] @ or_default (status l0) ''N/A'' @ [CHR 0x0A] @
              ''userName:'' @ [CHR 0x09] @ or_default (userName l0) ''N/A'' @ [CHR 0x0A] @
              ''nrOfLines:'' @ [CHR 0x09] @
              str_int (case nrOfLines l0 of None \<Rightarrow> 0 | Some n \<Rightarrow> n)))"
proof -
  have h: "page_body (example_env service_fallback)
             (page_of ''img001.jpg'' [version_A, version_B]) start =
           (None, snd (page_body (example_env service_fallback)
             (page_of ''img001.jpg'' [version_A, version_B]) start))"
    by (simp add: model_defs example_defs)
  have t: "files (snd (page_body (example_env service_fallback)
             (page_of ''img001.jpg'' [version_A, version_B]) start)) ''out/img001.txt'' =
     Some ''fallback text''"
    by (simp add: model_defs example_defs)
  have m: "files (snd (page_body (example_env service_fallback)
             (page_of ''img001.jpg'' [version_A, version_B]) start)) ''out/img001-meta.txt'' =
     Some (''status:'' @ [CHR 0x09] @ ''IN_PROGRESS'' @ [CHR 0x0A] @
           ''userName:'' @ [CHR 0x09] @ ''bob'' @ [CHR 0x0A] @
           ''nrOfLines:'' @ [CHR 0x09] @ ''0'')"
    by (simp add: model_defs example_defs)
  from metadata_is_taken_from_primary [OF h] h t m show ?thesis by blast
qed

section \<open>What the fetch returns\<close>

lemma transport_failure_raises:
  "http_get env u = Inl e \<Longrightarrow> get_text_from_transcript env u = Inl e"
  by (simp add: get_text_from_transcript_def and_then_def)

lemma unparsable_body_raises:
  "http_get env u = Inr rv \<Longrightarrow> parsed rv = Inl e \<Longrightarrow> get_text_from_transcript env u = Inl e"
  by (simp add: get_text_from_transcript_def and_then_def)

lemma status_code_is_not_read:
  "get_text_from_transcript (env\<lparr>http_get := \<lambda>_. Inr (rv\<lparr>status_code := c\<rparr>)\<rparr>) u =
   get_text_from_transcript (env\<lparr>http_get := \<lambda>_. Inr rv\<rparr>) u"
  by (simp add: get_text_from_transcript_def and_then_def)

text \<open>
  A page that is a dict: no \<open>TextRegion\<close> key, a region dict with no \<open>TextEquiv\<close> key, and
  an empty \<open>Unicode\<close> element all give \<open>None\<close>; a single region with text gives its text.
\<close>

lemma page_without_region:
  assumes "http_get env u = Inr rv" and "parsed rv = Inr (document kvs)"
    and "map_of kvs ''TextRegion'' = None"
  shows "get_text_from_transcript env u = Inr XNone"
  using assms
  by (simp add: get_text_from_transcript_def and_then_def getitem_def py_in_def document_def)

lemma region_without_text_equiv:
  assumes "http_get env u = Inr rv" and "parsed rv = Inr (document kvs)"
    and "map_of kvs ''TextRegion'' = Some (XDict r)" and "map_of r ''TextEquiv'' = None"
  shows "get_text_from_transcript env u = Inr XNone"
  using assms
  by (simp add: get_text_from_transcript_def and_then_def getitem_def py_in_def document_def)

lemma region_with_unicode:
  assumes "http_get env u = Inr rv" and "parsed rv = Inr (document kvs)"
    and "map_of kvs ''TextRegion'' = Some (XDict r)"
    and "map_of r ''TextEquiv'' = Some (XDict te)" and "map_of te ''Unicode'' = Some v"
  shows "get_text_from_transcript env u = Inr v"
  using assms
  by (simp add: get_text_from_transcript_def and_then_def getitem_def py_in_def document_def)

lemma repeated_regions_give_none:
  assumes "http_get env u = Inr rv" and "parsed rv = Inr (document kvs)"
    and "map_of kvs ''TextRegion'' = Some (XList rs)" and "XStr ''TextEquiv'' \<notin> set rs"
  shows "get_text_from_transcript env u = Inr XNone"
  using assms
  by (simp add: get_text_from_transcript_def and_then_def getitem_def py_in_def document_def)

text \<open>
  Claim C6, at a transcript with two text regions that both hold text: \<open>xmltodict\<close>
  gives the list of the two regions under \<open>TextRegion\<close>, \<open>'TextEquiv' in tr\<close> is false
  for that list, and the fetch returns \<open>None\<close> where the claim has the text \<open>one\<close> of
  the first region.
\<close>

theorem two_regions_give_no_text:
  "http_get (example_env service_two_regions) ''B'' =
     Inr \<lparr>status_code = 200,
          parsed = Inr (document [(''TextRegion'', XList [region ''one'', region ''two''])])\<rparr> \<and>
   get_text_from_transcript (example_env service_two_regions) ''B'' = Inr XNone"
  by (simp add: model_defs example_defs)

text \<open>
  Claim C7, at a response with status 500 whose body is a page document: the status is
  never read, so the fetch returns the text where the claim has it fail.
\<close>

theorem server_error_gives_text:
  "http_get (example_env service_500) ''B'' =
     Inr \<lparr>status_code = 500,
          parsed = Inr (document [(''TextRegion'', region ''line one'')])\<rparr> \<and>
   get_text_from_transcript (example_env service_500) ''B'' = Inr (XStr ''line one'')"
  by (simp add: model_defs example_defs)

section \<open>Pages without a fallback, pages without versions\<close>

text \<open>
  When the first fetch returns \<open>None\<close> and every version has the timestamp of the first
  latest one, \<open>o_latest\<close> is empty and \<open>o_latest[0]\<close> raises \<open>IndexError\<close>.
\<close>

lemma no_other_timestamp_raises:
  assumes "max_timestamp ts = Inr m" and "fromtimestamp env m = Inr ()"
    and "\<forall>t \<in> set ts. timestamp t = Some m"
    and "first (latest_of m ts) = Inr l0" and "url l0 = Some u"
    and "get_text_from_transcript env u = Inr XNone"
  shows "fetch_latest env ts = Inl IndexError"
proof -
  from assms(4) have "l0 \<in> set (latest_of m ts)"
    by (auto simp: first_def split: list.splits)
  then have "timestamp l0 = Some m" by (simp add: latest_of_def)
  with assms(3) have "other_than l0 ts = []"
    by (simp add: other_than_def filter_empty_conv)
  with assms show ?thesis
    by (simp add: fetch_latest_def and_then_def get_url_def first_def)
qed

text \<open>
  When the first fetch returns \<open>None\<close> and some version has another timestamp, the text
  of the first such version is taken, and the empty string when that is \<open>None\<close> too.
\<close>

lemma fallback_text_or_empty:
  assumes "max_timestamp ts = Inr m" and "fromtimestamp env m = Inr ()"
    and "first (latest_of m ts) = Inr l0" and "url l0 = Some u"
    and "get_text_from_transcript env u = Inr XNone"
    and "first (other_than l0 ts) = Inr o0" and "url o0 = Some ou"
    and "get_text_from_transcript env ou = Inr v"
  shows "fetch_latest env ts = Inr (if v = XNone then XStr [] else v, latest_of m ts)"
  using assms by (simp add: fetch_latest_def and_then_def get_url_def)

text \<open>
  Claim C2, at a page with the single version \<open>version_B\<close> whose fetch returns \<open>None\<close>:
  the page lands in the \<open>except\<close> branch with \<open>IndexError\<close> and no file is written, where
  the claim has an empty text file written.
\<close>

theorem single_version_without_text_fails:
  "get_text_from_transcript (example_env service_no_text) ''B'' = Inr XNone \<and>
   process_page (example_env service_no_text) start (page_of ''img001.jpg'' [version_B]) =
     (None,
      \<lparr>files = Map.empty,
       console = [ErrorProcessing (page_of ''img001.jpg'' [version_B]) IndexError],
       completed = 1\<rparr>)"
  by (simp add: model_defs example_defs)

text \<open>
  Claim C3, at a page with two versions of one timestamp whose fetches return \<open>None\<close>:
  no fallback exists, the page lands in the \<open>except\<close> branch with \<open>IndexError\<close> and no
  text file is written, where the claim has an empty text file written.
\<close>

theorem tied_versions_without_text_fail:
  "get_text_from_transcript (example_env service_no_text) ''B'' = Inr XNone \<and>
   other_than version_B [version_B, version_C] = [] \<and>
   process_page (example_env service_no_text) start
     (page_of ''img001.jpg'' [version_B, version_C]) =
     (None,
      \<lparr>files = Map.empty,
       console = [ErrorProcessing (page_of ''img001.jpg'' [version_B, version_C]) IndexError],
       completed = 1\<rparr>)"
  by (simp add: model_defs example_defs)

text \<open>
  Claim C5 as stated fails twice. A page with an empty version list ends in the \<open>except\<close>
  branch and is printed as an error with the \<open>ValueError\<close> of \<open>max\<close>: the loop has no
  report of a skipped page. And when the name of its image holds a closing tag, printing
  that report raises \<open>MarkupError\<close>, which leaves the loop.
\<close>

theorem empty_list_is_not_skipped:
  "process_page (example_env service_no_text) start (page_of ''img001.jpg'' []) =
     (None,
      \<lparr>files = Map.empty,
       console = [ErrorProcessing (page_of ''img001.jpg'' []) ValueError],
       completed = 1\<rparr>) \<and>
   page_body (example_env service_no_text) (page_of ''a[/b].jpg'' []) start =
     (Some ValueError, start) \<and>
   process_page (example_env service_no_text) start (page_of ''a[/b].jpg'' []) =
     (Some (LibraryError ''MarkupError''), start)"
  by (simp add: model_defs example_defs)

text \<open>
  Claim C5, amended. For a page whose version list is empty, the body raises before any
  file is written: the \<open>ValueError\<close> of \<open>max\<close> on an empty list (or the \<open>KeyError\<close> of a
  missing \<open>imgFileName\<close>, which is read first). No file is written, whatever the printing
  does. When the report of the exception prints, the page is reported as an error and the
  progress bar advances.
\<close>

theorem empty_list_is_reported_as_error:
  assumes "lookup_transcripts p = Inr []"
  shows "\<exists>e. page_body env p w = (Some e, w) \<and>
             e = (case imgFileName p of None \<Rightarrow> KeyError ''imgFileName'' | Some n \<Rightarrow> ValueError) \<and>
             files (snd (process_page env w p)) = files w \<and>
             (print_fails env (ErrorProcessing p e) = None \<longrightarrow>
                process_page env w p =
                  (None,
                   w\<lparr>console := console w @ [ErrorProcessing p e],
                      completed := completed w + 1\<rparr>))"
proof -
  let ?e = "case imgFileName p of None \<Rightarrow> KeyError ''imgFileName'' | Some n \<Rightarrow> ValueError"
  from assms have body: "page_body env p w = (Some ?e, w)"
    by (cases "imgFileName p")
       (simp_all add: page_body_def lookup_imgFileName_def fetch_latest_def
          max_timestamp_def and_then_def py_max_def)
  have "files (snd (process_page env w p)) = files w"
    by (cases "print_fails env (ErrorProcessing p ?e)") (simp_all add: process_page_def body)
  moreover have "print_fails env (ErrorProcessing p ?e) = None \<longrightarrow>
      process_page env w p =
        (None, w\<lparr>console := console w @ [ErrorProcessing p ?e], completed := completed w + 1\<rparr>)"
    by (simp add: process_page_def body)
  ultimately show ?thesis using body by - (rule exI [of _ ?e], simp)
qed

theorem empty_list_is_reported_as_error_witness:
  "lookup_transcripts (page_of ''img001.jpg'' []) = Inr [] \<and>
   print_fails (example_env service_no_text)
     (ErrorProcessing (page_of ''img001.jpg'' []) ValueError) = None \<and>
   files (snd (process_page (example_env service_no_text) start (page_of ''img001.jpg'' []))) =
     files start \<and>
   process_page (example_env service_no_text) start (page_of ''img001.jpg'' []) =
     (None,
      start\<lparr>console := console start @ [ErrorProcessing (page_of ''img001.jpg'' []) ValueError],
            completed := completed start + 1\<rparr>)"
proof -
  have h: "lookup_transcripts (page_of ''img001.jpg'' []) = Inr []"
    by (simp add: lookup_transcripts_def page_of_def)
  have pr: "print_fails (example_env service_no_text)
     (ErrorProcessing (page_of ''img001.jpg'' []) ValueError) = None"
    by (simp add: example_defs)
  have img: "imgFileName (page_of ''img001.jpg'' []) = Some ''img001.jpg''"
    by (simp add: page_of_def)
  from empty_list_is_reported_as_error [OF h, of "example_env service_no_text" start]
  show ?thesis using h pr unfolding img by auto
qed

section \<open>The loop over the pages\<close>

text \<open>
  What a write, and then the whole body, does to a state is fixed by the environment and
  the page: some files are set, some messages are printed.
\<close>

lemma write_text_effect:
  "\<exists>r g. \<forall>w. write_text env path data w = (r, w\<lparr>files := files w ++ g\<rparr>)"
proof (cases data)
  case (XStr s)
  show ?thesis
  proof (cases "fs_write env path s")
    case WriteOk
    with XStr have "\<forall>w. write_text env path data w = (None, w\<lparr>files := files w ++ [path \<mapsto> s]\<rparr>)"
      by (simp add: write_text_def)
    then show ?thesis by blast
  next
    case (OpenFails e)
    with XStr have "\<forall>w. write_text env path data w = (Some e, w\<lparr>files := files w ++ Map.empty\<rparr>)"
      by (simp add: write_text_def)
    then show ?thesis by blast
  next
    case (WriteFails e part)
    with XStr have
      "\<forall>w. write_text env path data w = (Some e, w\<lparr>files := files w ++ [path \<mapsto> part]\<rparr>)"
      by (simp add: write_text_def)
    then show ?thesis by blast
  qed
next
  case XNone
  then have "\<forall>w. write_text env path data w = (Some TypeError, w\<lparr>files := files w ++ Map.empty\<rparr>)"
    by (simp add: write_text_def)
  then show ?thesis by blast
next
  case (XDict kvs)
  then have "\<forall>w. write_text env path data w = (Some TypeError, w\<lparr>files := files w ++ Map.empty\<rparr>)"
    by (simp add: write_text_def)
  then show ?thesis by blast
next
  case (XList vs)
  then have "\<forall>w. write_text env path data w = (Some TypeError, w\<lparr>files := files w ++ Map.empty\<rparr>)"
    by (simp add: write_text_def)
  then show ?thesis by blast
qed

lemma page_body_effect:
  "\<exists>r g ms. \<forall>w. page_body env p w =
     (r, w\<lparr>files := files w ++ g, console := console w @ ms\<rparr>)"
proof -
  have stop: "\<exists>r g ms. \<forall>w. (Some e, w) =
     (r, w\<lparr>files := files w ++ g, console := console w @ ms\<rparr>)" for e :: exn
    by (intro exI [of _ "Some e"] exI [of _ Map.empty] exI [of _ "[]"]) simp
  show ?thesis
  proof (cases "lookup_transcripts p")
    case (Inl e)
    with stop [of e] show ?thesis by (simp add: page_body_def)
  next
    case ts: (Inr ts)
    show ?thesis
    proof (cases "lookup_imgFileName p")
      case (Inl e)
      with ts stop [of e] show ?thesis by (simp add: page_body_def)
    next
      case img: (Inr img)
      show ?thesis
      proof (cases "fetch_latest env ts")
        case (Inl e)
        with ts img stop [of e] show ?thesis by (simp add: page_body_def)
      next
        case (Inr res)
        then obtain body latest where fl: "fetch_latest env ts = Inr (body, latest)"
          by (cases res) auto
        show ?thesis
        proof (cases "py_len body")
          case (Inl e)
          with ts img fl stop [of e] show ?thesis by (simp add: page_body_def)
        next
          case n: (Inr n)
          let ?tp = "text_file_path env img" and ?mp = "meta_file_path env img"
          obtain r1 g1 where
            w1: "\<And>w. write_text env ?tp body w = (r1, w\<lparr>files := files w ++ g1\<rparr>)"
            using write_text_effect [of env ?tp body] by blast
          show ?thesis
          proof (cases "print_fails env (Writing ?tp n)")
            case (Some e)
            with ts img fl n stop [of e] show ?thesis by (simp add: page_body_def)
          next
            case pr: None
          show ?thesis
          proof (cases r1)
            case (Some e)
            with ts img fl n w1 pr have
              "\<forall>w. page_body env p w =
                 (Some e, w\<lparr>files := files w ++ g1, console := console w @ [Writing ?tp n]\<rparr>)"
              by (simp add: page_body_def)
            then show ?thesis by blast
          next
            case None
            show ?thesis
            proof (cases latest)
              case Nil
              with None ts img fl n w1 pr have
                "\<forall>w. page_body env p w =
                   (None, w\<lparr>files := files w ++ g1, console := console w @ [Writing ?tp n]\<rparr>)"
                by (simp add: page_body_def)
              then show ?thesis by blast
            next
              case (Cons l0 rest)
              obtain r2 g2 where
                w2: "\<And>w. write_text env ?mp (XStr (meta_text l0)) w =
                        (r2, w\<lparr>files := files w ++ g2\<rparr>)"
                using write_text_effect [of env ?mp "XStr (meta_text l0)"] by blast
              from Cons None ts img fl n w1 w2 pr have
                "\<forall>w. page_body env p w =
                   (r2, w\<lparr>files := files w ++ (g1 ++ g2),
                           console := console w @ [Writing ?tp n]\<rparr>)"
                by (simp add: page_body_def)
              then show ?thesis by blast
            qed
          qed
          qed
        qed
      qed
    qed
  qed
qed

lemma process_page_effect:
  "\<exists>r g ms k. \<forall>w. process_page env w p =
     (r, w\<lparr>files := files w ++ g, console := console w @ ms, completed := completed w + k\<rparr>)"
proof -
  obtain r g ms where
    b: "\<And>w. page_body env p w = (r, w\<lparr>files := files w ++ g, console := console w @ ms\<rparr>)"
    using page_body_effect [of env p] by blast
  show ?thesis
  proof (cases r)
    case None
    with b have "\<forall>w. process_page env w p =
      (None,
       w\<lparr>files := files w ++ g, console := console w @ ms, completed := completed w + 1\<rparr>)"
      by (simp add: process_page_def)
    then show ?thesis by blast
  next
    case (Some e)
    show ?thesis
    proof (cases "print_fails env (ErrorProcessing p e)")
      case None
      with Some b have "\<forall>w. process_page env w p =
        (None,
         w\<lparr>files := files w ++ g, console := console w @ (ms @ [ErrorProcessing p e]),
           completed := completed w + 1\<rparr>)"
        by (simp add: process_page_def)
      then show ?thesis by blast
    next
      case raised: (Some e')
      with Some b have "\<forall>w. process_page env w p =
        (Some e',
         w\<lparr>files := files w ++ g, console := console w @ ms, completed := completed w + 0\<rparr>)"
        by (simp add: process_page_def)
      then show ?thesis by blast
    qed
  qed
qed

text \<open>
  Claim C9. Processing a page a second time, in the same environment (the same versions,
  the same answers of the service and of the file system), leaves every file as the
  first time left it.
\<close>

theorem export_page_is_idempotent:
  "files (snd (process_page env (snd (process_page env w p)) p)) =
   files (snd (process_page env w p))"
proof -
  obtain r g ms k where
    e: "\<And>w. process_page env w p =
          (r, w\<lparr>files := files w ++ g, console := console w @ ms,
                completed := completed w + k\<rparr>)"
    using process_page_effect [of env p] by blast
  have "files (snd (process_page env (snd (process_page env w p)) p)) = (files w ++ g) ++ g"
    by (simp add: e)
  also have "\<dots> = files w ++ g"
    by (rule ext) (simp add: map_add_def split: option.splits)
  also have "\<dots> = files (snd (process_page env w p))"
    by (simp add: e)
  finally show ?thesis .
qed

text \<open>
  When the body raises on a page and the report of the exception prints, the exception
  is caught: the page is reported and the loop goes on with the pages after it.
\<close>

lemma reported_error_is_contained:
  assumes "page_body env p w = (Some e, w')" and "print_fails env (ErrorProcessing p e) = None"
  shows "process_pages env w (p # qs) =
           process_pages env
             (w'\<lparr>console := console w' @ [ErrorProcessing p e],
                 completed := completed w' + 1\<rparr>) qs"
  using assms by (simp add: process_page_def)

text \<open>
  Claim C8, at two pages of which the first has no versions and an image name with a
  closing tag. Its body raises \<open>ValueError\<close>, which is caught; printing the report raises
  \<open>MarkupError\<close> in the \<open>except\<close> branch, which leaves the loop, and the second page, which
  would be exported on its own, is not processed. The claim has the error reported and
  the later page processed.
\<close>

theorem error_report_can_end_the_run:
  "page_body (example_env service_fallback) (page_of ''a[/b].jpg'' []) start =
     (Some ValueError, start) \<and>
   print_fails (example_env service_fallback)
     (ErrorProcessing (page_of ''a[/b].jpg'' []) ValueError) =
     Some (LibraryError ''MarkupError'') \<and>
   process_pages (example_env service_fallback) start
     [page_of ''a[/b].jpg'' [], page_of ''img001.jpg'' [version_A, version_B]] =
     (Some (LibraryError ''MarkupError''), start) \<and>
   fst (process_pages (example_env service_fallback) start
          [page_of ''img001.jpg'' [version_A, version_B]]) = None \<and>
   files (snd (process_pages (example_env service_fallback) start
          [page_of ''img001.jpg'' [version_A, version_B]])) ''out/img001.txt'' =
     Some ''fallback text''"
  by (simp add: model_defs example_defs)



end
